theory Spec2Isabelle
  imports Main "HOL-Library.Word"
begin

section \<open>SocialGraphNftFhe: the contract of contracts/Social_Graph_NFT_Fhe.sol\<close>

text \<open>
  The contract is embedded as functions from its storage to a result: a call either
  reverts with an error (\<open>Inl\<close>) or returns the storage it leaves together with the events
  it emitted (\<open>Inr\<close>). A reverted call of the EVM rolls back every write, so the value
  \<open>Inl e\<close> carries no storage: the storage after a revert is the storage before the call.

  Unsigned 256-bit integers are natural numbers; Solidity 0.8 checks its arithmetic, so
  every \<open>+\<close> and \<open>++\<close> of the source is \<open>checked_add\<close>, which reverts with \<open>Panic 0x11\<close>
  when the sum leaves the 256 bits. A Solidity mapping is a total function whose value at
  a key never written is the zero value of its type.
\<close>

subsection \<open>Values\<close>

type_synonym address = "160 word"
type_synonym bytes = "8 word list"

definition max_uint256 :: nat where
  "max_uint256 = 2 ^ 256 - 1"

datatype error =
    NotOwner
  | NotProvider
  | Paused
  | CooldownActive
  | BatchClosed
  | InvalidArgument
  | ReplayAttempt
  | StateMismatch
  | InvalidProof
  | AlreadyInitialized
  | NotInitialized
  | Panic nat
  | AbiDecodeFailure

definition checked_add :: "nat \<Rightarrow> nat \<Rightarrow> error + nat" where
  "checked_add a b = (if a + b \<le> max_uint256 then Inr (a + b) else Inl (Panic 0x11))"

subsection \<open>The crypto engine and the decryption oracle\<close>

text \<open>
  The contract imports the library \<open>@fhevm/solidity\<close>, which is not part of the
  repository. Section 6 of the specification gives the interface the contract relies on:
  the crypto engine with \<open>encryptedZero\<close>, \<open>isInitialized\<close>, a homomorphic \<open>add\<close> and a stable
  export of a handle, and the decryption oracle that takes a list of exported handles,
  returns a request identifier and exposes \<open>verify(requestId, cleartextBytes, proofBytes)\<close>.
  The definitions of this subsection model that interface. The calls of the library
  always return: the access control lists of the engine are not modelled.
\<close>

text \<open>
  Modelled from the spec: the opaque handle of the crypto engine, type \<open>euint32\<close> of the
  missing library. A handle is represented by the way it was made: the zero word of an
  unwritten storage slot, a trivial encryption of a constant, a ciphertext made off chain
  (the cleartext it encrypts and the randomness that tells two encryptions of one value
  apart), or the result of a homomorphic addition. Two handles are equal exactly when they
  were made the same way, which is the idealisation that the 32-byte handles of the
  engine never collide.
\<close>

datatype euint32 =
    Uninitialized
  | TrivialEncrypt "32 word"
  | Encrypted "32 word" nat
  | FheAdd euint32 euint32

text \<open>Modelled from the spec: \<open>encryptedZero\<close>, the missing \<open>FHE.asEuint32\<close> at 0, for any constant.\<close>

definition FHE_asEuint32 :: "32 word \<Rightarrow> euint32" where
  "FHE_asEuint32 v = TrivialEncrypt v"

text \<open>
  Modelled from the spec: \<open>isInitialized\<close>, the missing \<open>FHE.isInitialized\<close>; the default
  handle is told apart from an encrypted zero.
\<close>

definition FHE_isInitialized :: "euint32 \<Rightarrow> bool" where
  "FHE_isInitialized h = (h \<noteq> Uninitialized)"

text \<open>Modelled from the spec: the homomorphic \<open>add\<close>, the missing \<open>FHE.add\<close>; it makes a new handle.\<close>

definition FHE_add :: "euint32 \<Rightarrow> euint32 \<Rightarrow> euint32" where
  "FHE_add a b = FheAdd a b"

text \<open>
  Modelled from the spec: \<open>exportOpaque\<close>, the missing \<open>FHE.toBytes32\<close>; the export of a handle
  is the handle as 32 bytes.
\<close>

definition FHE_toBytes32 :: "euint32 \<Rightarrow> euint32" where
  "FHE_toBytes32 h = h"

text \<open>
  Modelled from the spec: the value a handle encrypts, which the key holders of the
  missing engine obtain when they decrypt it. \<open>add\<close> is homomorphic: the sum encrypts the
  sum of the values, in the arithmetic of \<open>uint32\<close>, modulo \<open>2 ^ 32\<close>.
\<close>

fun cleartext :: "euint32 \<Rightarrow> 32 word" where
  "cleartext Uninitialized = 0"
| "cleartext (TrivialEncrypt v) = v"
| "cleartext (Encrypted v r) = v"
| "cleartext (FheAdd a b) = cleartext a + cleartext b"

text \<open>
  \<open>keccak256(abi.encode(cts, address(this)))\<close>: a value of type \<open>bytes32\<close> is either the
  zero word (the value of a \<open>stateHash\<close> never written) or the digest of an encoded
  argument, represented by that argument: the digest is taken to be free of collisions
  and never zero.
\<close>

datatype bytes32 =
    ZeroHash
  | Keccak256 "euint32 list" address

text \<open>
  Modelled from the spec: the signature check of the missing oracle, a parameter of the
  model. It is given the handles of a request, the cleartext payload and the proof.
\<close>

type_synonym verifier = "euint32 list \<Rightarrow> bytes \<Rightarrow> bytes \<Rightarrow> bool"

text \<open>
  Modelled from the spec: the missing \<open>FHE.requestDecryption\<close>. The oracle keeps the requests
  issued so far, in order; the identifier it returns is the position of the request, so
  that each request has an identifier of its own (section 5: further requests for a batch
  have each their own independent context).
\<close>

definition FHE_requestDecryption :: "euint32 list list \<Rightarrow> euint32 list \<Rightarrow> nat \<times> euint32 list list" where
  "FHE_requestDecryption requests cts = (length requests, requests @ [cts])"

text \<open>
  Modelled from the spec: \<open>verify(requestId, cleartextBytes, proofBytes)\<close>, the missing
  \<open>FHE.checkSignatures\<close>: the request is known and the verifier accepts the payload and the
  proof for its handles.
\<close>

definition FHE_checkSignatures :: "verifier \<Rightarrow> euint32 list list \<Rightarrow> nat \<Rightarrow> bytes \<Rightarrow> bytes \<Rightarrow> bool" where
  "FHE_checkSignatures kms requests requestId cleartexts decryptionProof =
     (requestId < length requests \<and> kms (requests ! requestId) cleartexts decryptionProof)"

text \<open>
  \<open>abi.decode(cleartexts, (uint32))\<close>: the payload holds at least one 32-byte word, read
  big-endian, whose value fits in 32 bits; the decoder reverts otherwise.
\<close>

definition be_uint :: "bytes \<Rightarrow> nat" where
  "be_uint bs = foldl (\<lambda>acc b. 256 * acc + unat b) 0 bs"

definition abi_decode_uint32 :: "bytes \<Rightarrow> nat option" where
  "abi_decode_uint32 cleartexts =
     (if length cleartexts < 32 then None
      else if be_uint (take 32 cleartexts) < 2 ^ 32 then Some (be_uint (take 32 cleartexts))
      else None)"

text \<open>
  \<open>abi.encode\<close> of one \<open>uint32\<close>, the payload the oracle sends for a request of one handle:
  one 32-byte word, big-endian.
\<close>

definition abi_encode_uint32 :: "32 word \<Rightarrow> bytes" where
  "abi_encode_uint32 v =
     [0, 0, 0, 0, 0, 0, 0, 0, 0, 0, 0, 0, 0, 0, 0, 0, 0, 0, 0, 0, 0, 0, 0, 0, 0, 0, 0, 0,
      of_nat (unat v div 2 ^ 24 mod 256), of_nat (unat v div 2 ^ 16 mod 256),
      of_nat (unat v div 2 ^ 8 mod 256), of_nat (unat v mod 256)]"

subsection \<open>Storage, events, the caller\<close>

record DecryptionContext =
  batchId :: nat
  stateHash :: bytes32
  processed :: bool

definition zero_context :: DecryptionContext where
  "zero_context = \<lparr> batchId = 0, stateHash = ZeroHash, processed = False \<rparr>"

text \<open>
  The eleven state variables of the contract, then \<open>address(this)\<close> and the requests held
  by the oracle library.
\<close>

record state =
  owner :: address
  isProvider :: "address \<Rightarrow> bool"
  paused :: bool
  cooldownSeconds :: nat
  lastSubmissionTime :: "address \<Rightarrow> nat"
  lastDecryptionRequestTime :: "address \<Rightarrow> nat"
  currentBatchId :: nat
  batchOpen :: bool
  encryptedTotalConnections :: "nat \<Rightarrow> euint32"
  encryptedUserConnections :: "nat \<Rightarrow> address \<Rightarrow> euint32"
  decryptionContexts :: "nat \<Rightarrow> DecryptionContext"
  this_address :: address
  decryptionRequests :: "euint32 list list"

datatype event =
    ProviderAdded address
  | ProviderRemoved address
  | CooldownSecondsUpdated nat nat
  | PausedBy address
  | Unpaused address
  | BatchOpened nat
  | BatchClosedAt nat
  | ConnectionSubmitted address nat euint32
  | DecryptionRequested nat nat
  | DecryptionCompleted nat nat nat

record env =
  msg_sender :: address
  block_timestamp :: nat

type_synonym result = "error + state \<times> event list"

subsection \<open>The functions of the contract\<close>

definition constructor :: "env \<Rightarrow> address \<Rightarrow> state" where
  "constructor e this =
     \<lparr> owner = msg_sender e,
       isProvider = (\<lambda>_. False)(msg_sender e := True),
       paused = False,
       cooldownSeconds = 60,
       lastSubmissionTime = (\<lambda>_. 0),
       lastDecryptionRequestTime = (\<lambda>_. 0),
       currentBatchId = 0,
       batchOpen = False,
       encryptedTotalConnections = (\<lambda>_. Uninitialized),
       encryptedUserConnections = (\<lambda>_ _. Uninitialized),
       decryptionContexts = (\<lambda>_. zero_context),
       this_address = this,
       decryptionRequests = [] \<rparr>"

definition addProvider :: "env \<Rightarrow> state \<Rightarrow> address \<Rightarrow> result" where
  "addProvider e s provider =
     (if msg_sender e \<noteq> owner s then Inl NotOwner
      else if provider = 0 then Inl InvalidArgument
      else Inr (s\<lparr>isProvider := (isProvider s)(provider := True)\<rparr>, [ProviderAdded provider]))"

definition removeProvider :: "env \<Rightarrow> state \<Rightarrow> address \<Rightarrow> result" where
  "removeProvider e s provider =
     (if msg_sender e \<noteq> owner s then Inl NotOwner
      else if \<not> isProvider s provider then Inl InvalidArgument
      else Inr (s\<lparr>isProvider := (isProvider s)(provider := False)\<rparr>, [ProviderRemoved provider]))"

definition setCooldownSeconds :: "env \<Rightarrow> state \<Rightarrow> nat \<Rightarrow> result" where
  "setCooldownSeconds e s newCooldown =
     (if msg_sender e \<noteq> owner s then Inl NotOwner
      else if newCooldown = 0 then Inl InvalidArgument
      else Inr (s\<lparr>cooldownSeconds := newCooldown\<rparr>,
                [CooldownSecondsUpdated (cooldownSeconds s) newCooldown]))"

definition pause :: "env \<Rightarrow> state \<Rightarrow> result" where
  "pause e s =
     (if msg_sender e \<noteq> owner s then Inl NotOwner
      else if paused s then Inl Paused
      else Inr (s\<lparr>paused := True\<rparr>, [PausedBy (msg_sender e)]))"

definition unpause :: "env \<Rightarrow> state \<Rightarrow> result" where
  "unpause e s =
     (if msg_sender e \<noteq> owner s then Inl NotOwner
      else Inr (s\<lparr>paused := False\<rparr>, [Unpaused (msg_sender e)]))"

definition openBatch :: "env \<Rightarrow> state \<Rightarrow> result" where
  "openBatch e s =
     (if \<not> isProvider s (msg_sender e) then Inl NotProvider
      else if paused s then Inl Paused
      else if batchOpen s then Inl InvalidArgument
      else case checked_add (currentBatchId s) 1 of
             Inl err \<Rightarrow> Inl err
           | Inr newId \<Rightarrow>
               Inr (s\<lparr>currentBatchId := newId,
                      batchOpen := True,
                      encryptedTotalConnections :=
                        (encryptedTotalConnections s)(newId := FHE_asEuint32 0)\<rparr>,
                    [BatchOpened newId]))"

definition closeBatch :: "env \<Rightarrow> state \<Rightarrow> result" where
  "closeBatch e s =
     (if \<not> isProvider s (msg_sender e) then Inl NotProvider
      else if paused s then Inl Paused
      else if \<not> batchOpen s then Inl InvalidArgument
      else Inr (s\<lparr>batchOpen := False\<rparr>, [BatchClosedAt (currentBatchId s)]))"

definition submitEncryptedConnections :: "env \<Rightarrow> state \<Rightarrow> address \<Rightarrow> euint32 \<Rightarrow> result" where
  "submitEncryptedConnections e s user encryptedCount =
     (if \<not> isProvider s (msg_sender e) then Inl NotProvider
      else if paused s then Inl Paused
      else case checked_add (lastSubmissionTime s (msg_sender e)) (cooldownSeconds s) of
             Inl err \<Rightarrow> Inl err
           | Inr ready \<Rightarrow>
               if block_timestamp e < ready then Inl CooldownActive
               else if \<not> batchOpen s then Inl BatchClosed
               else if \<not> FHE_isInitialized encryptedCount then Inl NotInitialized
               else
                 Inr (s\<lparr>lastSubmissionTime :=
                          (lastSubmissionTime s)(msg_sender e := block_timestamp e),
                        encryptedUserConnections :=
                          (encryptedUserConnections s)(currentBatchId s :=
                            (encryptedUserConnections s (currentBatchId s))(user := encryptedCount)),
                        encryptedTotalConnections :=
                          (encryptedTotalConnections s)(currentBatchId s :=
                            FHE_add (encryptedTotalConnections s (currentBatchId s)) encryptedCount)\<rparr>,
                      [ConnectionSubmitted user (currentBatchId s) (FHE_toBytes32 encryptedCount)]))"

definition hashCiphertexts :: "state \<Rightarrow> euint32 list \<Rightarrow> bytes32" where
  "hashCiphertexts s cts = Keccak256 cts (this_address s)"

definition requestTotalConnectionsDecryption :: "env \<Rightarrow> state \<Rightarrow> nat \<Rightarrow> result" where
  "requestTotalConnectionsDecryption e s batch =
     (if \<not> isProvider s (msg_sender e) then Inl NotProvider
      else if paused s then Inl Paused
      else case checked_add (lastDecryptionRequestTime s (msg_sender e)) (cooldownSeconds s) of
             Inl err \<Rightarrow> Inl err
           | Inr ready \<Rightarrow>
               if block_timestamp e < ready then Inl CooldownActive
               else if batch = 0 \<or> batch > currentBatchId s then Inl InvalidArgument
               else if \<not> FHE_isInitialized (encryptedTotalConnections s batch) then Inl NotInitialized
               else
                 let totalConnections = encryptedTotalConnections s batch;
                     cts = [FHE_toBytes32 totalConnections];
                     hash = hashCiphertexts s cts;
                     (requestId, requests) = FHE_requestDecryption (decryptionRequests s) cts
                 in Inr (s\<lparr>lastDecryptionRequestTime :=
                             (lastDecryptionRequestTime s)(msg_sender e := block_timestamp e),
                           decryptionContexts :=
                             (decryptionContexts s)(requestId :=
                               \<lparr> batchId = batch, stateHash = hash, processed = False \<rparr>),
                           decryptionRequests := requests\<rparr>,
                         [DecryptionRequested requestId batch]))"

definition myCallback :: "verifier \<Rightarrow> state \<Rightarrow> nat \<Rightarrow> bytes \<Rightarrow> bytes \<Rightarrow> result" where
  "myCallback kms s requestId cleartexts decryptionProof =
     (if processed (decryptionContexts s requestId) then Inl ReplayAttempt
      else
        let totalConnections = encryptedTotalConnections s (batchId (decryptionContexts s requestId));
            cts = [FHE_toBytes32 totalConnections];
            currentHash = hashCiphertexts s cts
        in if currentHash \<noteq> stateHash (decryptionContexts s requestId) then Inl StateMismatch
           else if \<not> FHE_checkSignatures kms (decryptionRequests s) requestId cleartexts decryptionProof
             then Inl InvalidProof
           else case abi_decode_uint32 cleartexts of
                  None \<Rightarrow> Inl AbiDecodeFailure
                | Some totalConnectionsCleartext \<Rightarrow>
                    Inr (s\<lparr>decryptionContexts :=
                            (decryptionContexts s)(requestId :=
                              (decryptionContexts s requestId)\<lparr>processed := True\<rparr>)\<rparr>,
                         [DecryptionCompleted requestId
                            (batchId (decryptionContexts s requestId)) totalConnectionsCleartext]))"

subsection \<open>Transactions and executions\<close>

text \<open>
  A transaction is a call of one of the ten external functions that write storage, with
  its sender and block time. The getters of the public state variables only read.
\<close>

datatype call =
    AddProvider address
  | RemoveProvider address
  | SetCooldownSeconds nat
  | Pause
  | Unpause
  | OpenBatch
  | CloseBatch
  | SubmitEncryptedConnections address euint32
  | RequestTotalConnectionsDecryption nat
  | MyCallback nat bytes bytes

fun exec :: "verifier \<Rightarrow> state \<Rightarrow> env \<times> call \<Rightarrow> result" where
  "exec kms s (e, AddProvider p) = addProvider e s p"
| "exec kms s (e, RemoveProvider p) = removeProvider e s p"
| "exec kms s (e, SetCooldownSeconds n) = setCooldownSeconds e s n"
| "exec kms s (e, Pause) = pause e s"
| "exec kms s (e, Unpause) = unpause e s"
| "exec kms s (e, OpenBatch) = openBatch e s"
| "exec kms s (e, CloseBatch) = closeBatch e s"
| "exec kms s (e, SubmitEncryptedConnections u c) = submitEncryptedConnections e s u c"
| "exec kms s (e, RequestTotalConnectionsDecryption b) = requestTotalConnectionsDecryption e s b"
| "exec kms s (e, MyCallback r c p) = myCallback kms s r c p"

text \<open>A transaction that reverts leaves the storage as it was.\<close>

definition step :: "verifier \<Rightarrow> state \<Rightarrow> env \<times> call \<Rightarrow> state" where
  "step kms s tx = (case exec kms s tx of Inl _ \<Rightarrow> s | Inr (s', _) \<Rightarrow> s')"

definition run :: "verifier \<Rightarrow> state \<Rightarrow> (env \<times> call) list \<Rightarrow> state" where
  "run kms s txs = foldl (step kms) s txs"

subsection \<open>What an execution submitted\<close>

text \<open>
  The submissions an execution made to batch \<open>B\<close>: for each call of
  \<open>submitEncryptedConnections\<close> that returned while \<open>B\<close> was the current batch, the user and
  the ciphertext it carried, in the order of the calls.
\<close>

definition submission :: "verifier \<Rightarrow> state \<Rightarrow> env \<times> call \<Rightarrow> nat \<Rightarrow> (address \<times> euint32) list" where
  "submission kms s tx B =
     (case snd tx of
        SubmitEncryptedConnections u c \<Rightarrow>
          (case exec kms s tx of
             Inr _ \<Rightarrow> if currentBatchId s = B then [(u, c)] else []
           | Inl _ \<Rightarrow> [])
      | _ \<Rightarrow> [])"

fun submitted :: "verifier \<Rightarrow> state \<Rightarrow> (env \<times> call) list \<Rightarrow> nat \<Rightarrow> (address \<times> euint32) list" where
  "submitted kms s [] B = []"
| "submitted kms s (tx # txs) B = submission kms s tx B @ submitted kms (step kms s tx) txs B"

text \<open>The homomorphic sum of a list of ciphertexts, from an encrypted zero.\<close>

definition homomorphic_sum :: "euint32 list \<Rightarrow> euint32" where
  "homomorphic_sum cs = foldl FHE_add (FHE_asEuint32 0) cs"

text \<open>The most recent ciphertext a user submitted, the zero handle when there is none.\<close>

definition latest :: "(address \<times> euint32) list \<Rightarrow> address \<Rightarrow> euint32" where
  "latest subs u = (case map_of (rev subs) u of None \<Rightarrow> Uninitialized | Some c \<Rightarrow> c)"

text \<open>
  A verifier is sound when it accepts, for a request of one handle, no payload but the
  encoding of the value that handle encrypts: the oracle signs correct decryptions only.
\<close>

definition sound_verifier :: "verifier \<Rightarrow> bool" where
  "sound_verifier kms =
     (\<forall>h cleartexts decryptionProof.
        kms [h] cleartexts decryptionProof \<longrightarrow> cleartexts = abi_encode_uint32 (cleartext h))"

text \<open>The states that an execution from the constructor maintains.\<close>

definition well_formed :: "state \<Rightarrow> bool" where
  "well_formed s =
     ((batchOpen s \<longrightarrow> 1 \<le> currentBatchId s) \<and>
      (\<forall>b. b = 0 \<or> currentBatchId s < b \<longrightarrow> encryptedTotalConnections s b = Uninitialized) \<and>
      (\<forall>b. 1 \<le> b \<and> b \<le> currentBatchId s \<longrightarrow> encryptedTotalConnections s b \<noteq> Uninitialized) \<and>
      (\<forall>r. r < length (decryptionRequests s) \<longrightarrow>
           1 \<le> batchId (decryptionContexts s r) \<and>
           batchId (decryptionContexts s r) \<le> currentBatchId s \<and>
           stateHash (decryptionContexts s r) =
             Keccak256 (decryptionRequests s ! r) (this_address s)) \<and>
      (\<forall>r. length (decryptionRequests s) \<le> r \<longrightarrow> decryptionContexts s r = zero_context))"

text \<open>The guards of \<open>submitEncryptedConnections\<close>: the call returns exactly when all hold.\<close>

definition submit_returns :: "state \<Rightarrow> env \<Rightarrow> euint32 \<Rightarrow> bool" where
  "submit_returns s e c =
     (isProvider s (msg_sender e) \<and> \<not> paused s \<and>
      lastSubmissionTime s (msg_sender e) + cooldownSeconds s \<le> max_uint256 \<and>
      lastSubmissionTime s (msg_sender e) + cooldownSeconds s \<le> block_timestamp e \<and>
      batchOpen s \<and> c \<noteq> Uninitialized)"

text \<open>What an execution from the constructor keeps true of the aggregates and the contributions.\<close>

definition tallied :: "verifier \<Rightarrow> state \<Rightarrow> (env \<times> call) list \<Rightarrow> bool" where
  "tallied kms s0 txs =
     ((\<forall>B. currentBatchId (run kms s0 txs) < B \<longrightarrow> submitted kms s0 txs B = []) \<and>
      (\<forall>B. 1 \<le> B \<and> B \<le> currentBatchId (run kms s0 txs) \<longrightarrow>
           encryptedTotalConnections (run kms s0 txs) B =
             homomorphic_sum (map snd (submitted kms s0 txs B))) \<and>
      (\<forall>B u. encryptedUserConnections (run kms s0 txs) B u = latest (submitted kms s0 txs B) u))"

subsection \<open>A sample deployment\<close>

text \<open>
  A verifier that accepts the correct decryption of a single handle under one fixed
  proof, a payload of one 32-byte word, and the executions of the scenarios of section 8
  of the specification, by the deployer \<open>0xA1\<close> of the contract at \<open>0xC0\<close>.
\<close>

definition kms_proof :: bytes where
  "kms_proof = [0x4B, 0x4D, 0x53]"

definition honest_kms :: verifier where
  "honest_kms handles cleartexts decryptionProof =
     (case handles of
        [h] \<Rightarrow> cleartexts = abi_encode_uint32 (cleartext h) \<and> decryptionProof = kms_proof
      | _ \<Rightarrow> False)"

definition uint32_payload :: "8 word \<Rightarrow> bytes" where
  "uint32_payload b =
     [0, 0, 0, 0, 0, 0, 0, 0, 0, 0, 0, 0, 0, 0, 0, 0,
      0, 0, 0, 0, 0, 0, 0, 0, 0, 0, 0, 0, 0, 0, 0, b]"

definition owner_at :: "nat \<Rightarrow> env" where
  "owner_at t = \<lparr> msg_sender = 0xA1, block_timestamp = t \<rparr>"

definition deployed :: state where
  "deployed = constructor (owner_at 1000) 0xC0"

definition batch_closed :: "(env \<times> call) list" where
  "batch_closed =
     [(owner_at 1000, OpenBatch),
      (owner_at 1100, SubmitEncryptedConnections 0x0A (Encrypted 5 1)),
      (owner_at 1200, SubmitEncryptedConnections 0x0B (Encrypted 3 2)),
      (owner_at 1300, SubmitEncryptedConnections 0x0A (Encrypted 2 3)),
      (owner_at 1400, CloseBatch)]"

definition decryption_requested :: "(env \<times> call) list" where
  "decryption_requested = batch_closed @ [(owner_at 1500, RequestTotalConnectionsDecryption 1)]"

definition completed_decryption :: "(env \<times> call) list" where
  "completed_decryption =
     decryption_requested @ [(owner_at 1600, MyCallback 0 (uint32_payload 10) kms_proof)]"

definition pending_decryption :: "(env \<times> call) list" where
  "pending_decryption =
     [(owner_at 1000, OpenBatch),
      (owner_at 1100, SubmitEncryptedConnections 0x0C (Encrypted 10 1)),
      (owner_at 1200, RequestTotalConnectionsDecryption 1)]"

definition cooldown_raised :: "(env \<times> call) list" where
  "cooldown_raised =
     [(owner_at 1000, OpenBatch),
      (owner_at 1100, SubmitEncryptedConnections 0x0A (Encrypted 5 1)),
      (owner_at 1200, SetCooldownSeconds max_uint256)]"

definition wrapping_total :: "(env \<times> call) list" where
  "wrapping_total =
     [(owner_at 1000, OpenBatch),
      (owner_at 1100, SubmitEncryptedConnections 0x0A (Encrypted 4294967295 1)),
      (owner_at 1200, SubmitEncryptedConnections 0x0B (Encrypted 1 2)),
      (owner_at 1300, CloseBatch),
      (owner_at 1400, RequestTotalConnectionsDecryption 1)]"

definition late_submission :: "(env \<times> call) list" where
  "late_submission =
     [(\<lparr> msg_sender = 0xEE, block_timestamp = 1250 \<rparr>, OpenBatch),
      (owner_at 1300, SubmitEncryptedConnections 0x0D (Encrypted 1 2))]"

section \<open>Executions\<close>

lemmas library_defs = checked_add_def FHE_requestDecryption_def FHE_isInitialized_def
  FHE_add_def FHE_asEuint32_def FHE_toBytes32_def hashCiphertexts_def

lemma run_Nil: "run kms s [] = s"
  by (simp add: run_def)

lemma run_Cons: "run kms s (tx # txs) = run kms (step kms s tx) txs"
  by (simp add: run_def)

lemma run_snoc: "run kms s (txs @ [tx]) = step kms (run kms s txs) tx"
  by (simp add: run_def)

lemma submitted_append:
  "submitted kms s (txs @ txs') B = submitted kms s txs B @ submitted kms (run kms s txs) txs' B"
  by (induction txs arbitrary: s) (simp_all add: run_Nil run_Cons)

text \<open>What a call that returns has checked and written.\<close>

lemma addProvider_Inr:
  "addProvider e s p = Inr (s', evs) \<Longrightarrow>
   s' = s\<lparr>isProvider := (isProvider s)(p := True)\<rparr>"
  by (auto simp: addProvider_def split: if_splits)

lemma removeProvider_Inr:
  "removeProvider e s p = Inr (s', evs) \<Longrightarrow>
   msg_sender e = owner s \<and> s' = s\<lparr>isProvider := (isProvider s)(p := False)\<rparr>"
  by (auto simp: removeProvider_def split: if_splits)

lemma setCooldownSeconds_Inr:
  "setCooldownSeconds e s n = Inr (s', evs) \<Longrightarrow> s' = s\<lparr>cooldownSeconds := n\<rparr>"
  by (auto simp: setCooldownSeconds_def split: if_splits)

lemma pause_Inr: "pause e s = Inr (s', evs) \<Longrightarrow> s' = s\<lparr>paused := True\<rparr>"
  by (auto simp: pause_def split: if_splits)

lemma unpause_Inr: "unpause e s = Inr (s', evs) \<Longrightarrow> s' = s\<lparr>paused := False\<rparr>"
  by (auto simp: unpause_def split: if_splits)

lemma openBatch_Inr:
  "openBatch e s = Inr (s', evs) \<Longrightarrow>
   \<not> batchOpen s \<and> currentBatchId s < max_uint256 \<and>
   s' = s\<lparr>currentBatchId := currentBatchId s + 1, batchOpen := True,
          encryptedTotalConnections :=
            (encryptedTotalConnections s)(currentBatchId s + 1 := TrivialEncrypt 0)\<rparr>"
  by (auto simp: openBatch_def library_defs split: if_splits)

lemma closeBatch_Inr:
  "closeBatch e s = Inr (s', evs) \<Longrightarrow> batchOpen s \<and> s' = s\<lparr>batchOpen := False\<rparr>"
  by (auto simp: closeBatch_def split: if_splits)

lemma submitEncryptedConnections_Inr:
  "submitEncryptedConnections e s u c = Inr (s', evs) \<Longrightarrow>
   batchOpen s \<and> c \<noteq> Uninitialized \<and>
   s' = s\<lparr>lastSubmissionTime := (lastSubmissionTime s)(msg_sender e := block_timestamp e),
          encryptedUserConnections :=
            (encryptedUserConnections s)(currentBatchId s :=
              (encryptedUserConnections s (currentBatchId s))(u := c)),
          encryptedTotalConnections :=
            (encryptedTotalConnections s)(currentBatchId s :=
              FheAdd (encryptedTotalConnections s (currentBatchId s)) c)\<rparr>"
  by (auto simp: submitEncryptedConnections_def library_defs split: if_splits)

lemma requestTotalConnectionsDecryption_Inr:
  "requestTotalConnectionsDecryption e s b = Inr (s', evs) \<Longrightarrow>
   1 \<le> b \<and> b \<le> currentBatchId s \<and>
   s' = s\<lparr>lastDecryptionRequestTime :=
            (lastDecryptionRequestTime s)(msg_sender e := block_timestamp e),
          decryptionContexts :=
            (decryptionContexts s)(length (decryptionRequests s) :=
              \<lparr> batchId = b,
                stateHash = Keccak256 [encryptedTotalConnections s b] (this_address s),
                processed = False \<rparr>),
          decryptionRequests := decryptionRequests s @ [[encryptedTotalConnections s b]]\<rparr>"
  by (auto simp: requestTotalConnectionsDecryption_def library_defs Let_def split: if_splits)

lemma myCallback_Inr:
  "myCallback kms s r c p = Inr (s', evs) \<Longrightarrow>
   \<not> processed (decryptionContexts s r) \<and>
   Keccak256 [encryptedTotalConnections s (batchId (decryptionContexts s r))] (this_address s) =
     stateHash (decryptionContexts s r) \<and>
   r < length (decryptionRequests s) \<and> kms (decryptionRequests s ! r) c p \<and>
   abi_decode_uint32 c \<noteq> None \<and>
   s' = s\<lparr>decryptionContexts :=
            (decryptionContexts s)(r := (decryptionContexts s r)\<lparr>processed := True\<rparr>)\<rparr> \<and>
   evs = [DecryptionCompleted r (batchId (decryptionContexts s r)) (the (abi_decode_uint32 c))]"
  by (auto simp: myCallback_def library_defs FHE_checkSignatures_def Let_def
      split: if_splits option.splits)

lemma well_formed_constructor: "well_formed (constructor e this)"
  by (simp add: well_formed_def constructor_def zero_context_def)

lemma well_formed_openBatch:
  assumes "well_formed s" and "\<not> batchOpen s"
  shows "well_formed (s\<lparr>currentBatchId := currentBatchId s + 1, batchOpen := True,
          encryptedTotalConnections :=
            (encryptedTotalConnections s)(currentBatchId s + 1 := TrivialEncrypt 0)\<rparr>)"
  using assms unfolding well_formed_def by auto

lemma well_formed_submit:
  assumes "well_formed s" and "batchOpen s"
  shows "well_formed (s\<lparr>lastSubmissionTime := t,
          encryptedUserConnections := uc,
          encryptedTotalConnections :=
            (encryptedTotalConnections s)(currentBatchId s :=
              FheAdd (encryptedTotalConnections s (currentBatchId s)) ct)\<rparr>)"
  using assms unfolding well_formed_def by auto

lemma well_formed_request:
  assumes "well_formed s" and "1 \<le> b" and "b \<le> currentBatchId s"
  shows "well_formed (s\<lparr>lastDecryptionRequestTime := t,
          decryptionContexts :=
            (decryptionContexts s)(length (decryptionRequests s) :=
              \<lparr> batchId = b,
                stateHash = Keccak256 [encryptedTotalConnections s b] (this_address s),
                processed = False \<rparr>),
          decryptionRequests := decryptionRequests s @ [[encryptedTotalConnections s b]]\<rparr>)"
  using assms unfolding well_formed_def by (simp add: nth_append)

lemma well_formed_callback:
  assumes "well_formed s" and "r < length (decryptionRequests s)"
  shows "well_formed (s\<lparr>decryptionContexts :=
            (decryptionContexts s)(r := (decryptionContexts s r)\<lparr>processed := True\<rparr>)\<rparr>)"
  using assms unfolding well_formed_def by simp

lemma well_formed_exec:
  assumes "well_formed s" and "exec kms s tx = Inr (s', evs)"
  shows "well_formed s'"
proof (cases tx)
  case (Pair e c)
  show ?thesis
  proof (cases c)
    case (AddProvider p)
    with Pair assms show ?thesis by (auto dest!: addProvider_Inr simp: well_formed_def)
  next
    case (RemoveProvider p)
    with Pair assms show ?thesis by (auto dest!: removeProvider_Inr simp: well_formed_def)
  next
    case (SetCooldownSeconds n)
    with Pair assms show ?thesis by (auto dest!: setCooldownSeconds_Inr simp: well_formed_def)
  next
    case Pause
    with Pair assms show ?thesis by (auto dest!: pause_Inr simp: well_formed_def)
  next
    case Unpause
    with Pair assms show ?thesis by (auto dest!: unpause_Inr simp: well_formed_def)
  next
    case OpenBatch
    with Pair assms show ?thesis
      by (auto dest!: openBatch_Inr intro: well_formed_openBatch)
  next
    case CloseBatch
    with Pair assms show ?thesis by (auto dest!: closeBatch_Inr simp: well_formed_def)
  next
    case (SubmitEncryptedConnections u ct)
    with Pair assms show ?thesis
      by (auto dest!: submitEncryptedConnections_Inr intro: well_formed_submit)
  next
    case (RequestTotalConnectionsDecryption b)
    with Pair assms show ?thesis
      by (auto dest!: requestTotalConnectionsDecryption_Inr intro: well_formed_request)
  next
    case (MyCallback r ct p)
    with Pair assms show ?thesis
      by (auto dest!: myCallback_Inr intro: well_formed_callback)
  qed
qed

lemma well_formed_step: "well_formed s \<Longrightarrow> well_formed (step kms s tx)"
  by (auto simp: step_def dest: well_formed_exec split: sum.splits)

lemma well_formed_run: "well_formed s \<Longrightarrow> well_formed (run kms s txs)"
  by (induction txs arbitrary: s) (simp_all add: run_Nil run_Cons well_formed_step)

text \<open>The storage after a transaction, call by call.\<close>

lemma step_AddProvider:
  "step kms s (e, AddProvider p) =
     (if msg_sender e = owner s \<and> p \<noteq> 0 then s\<lparr>isProvider := (isProvider s)(p := True)\<rparr> else s)"
  by (simp add: step_def addProvider_def)

lemma step_RemoveProvider:
  "step kms s (e, RemoveProvider p) =
     (if msg_sender e = owner s \<and> isProvider s p
      then s\<lparr>isProvider := (isProvider s)(p := False)\<rparr> else s)"
  by (simp add: step_def removeProvider_def)

lemma step_SetCooldownSeconds:
  "step kms s (e, SetCooldownSeconds n) =
     (if msg_sender e = owner s \<and> n \<noteq> 0 then s\<lparr>cooldownSeconds := n\<rparr> else s)"
  by (simp add: step_def setCooldownSeconds_def)

lemma step_Pause:
  "step kms s (e, Pause) =
     (if msg_sender e = owner s \<and> \<not> paused s then s\<lparr>paused := True\<rparr> else s)"
  by (simp add: step_def pause_def)

lemma step_Unpause:
  "step kms s (e, Unpause) = (if msg_sender e = owner s then s\<lparr>paused := False\<rparr> else s)"
  by (simp add: step_def unpause_def)

lemma step_OpenBatch:
  "step kms s (e, OpenBatch) =
     (if isProvider s (msg_sender e) \<and> \<not> paused s \<and> \<not> batchOpen s \<and>
         currentBatchId s < max_uint256
      then s\<lparr>currentBatchId := currentBatchId s + 1, batchOpen := True,
             encryptedTotalConnections :=
               (encryptedTotalConnections s)(currentBatchId s + 1 := TrivialEncrypt 0)\<rparr>
      else s)"
  by (auto simp: step_def openBatch_def library_defs)

lemma step_CloseBatch:
  "step kms s (e, CloseBatch) =
     (if isProvider s (msg_sender e) \<and> \<not> paused s \<and> batchOpen s
      then s\<lparr>batchOpen := False\<rparr> else s)"
  by (simp add: step_def closeBatch_def)

lemma step_Submit:
  "step kms s (e, SubmitEncryptedConnections u c) =
     (if submit_returns s e c
      then s\<lparr>lastSubmissionTime := (lastSubmissionTime s)(msg_sender e := block_timestamp e),
             encryptedUserConnections :=
               (encryptedUserConnections s)(currentBatchId s :=
                 (encryptedUserConnections s (currentBatchId s))(u := c)),
             encryptedTotalConnections :=
               (encryptedTotalConnections s)(currentBatchId s :=
                 FheAdd (encryptedTotalConnections s (currentBatchId s)) c)\<rparr>
      else s)"
  by (auto simp: step_def submitEncryptedConnections_def library_defs submit_returns_def)

lemma submission_Submit:
  "submission kms s (e, SubmitEncryptedConnections u c) B =
     (if submit_returns s e c \<and> currentBatchId s = B then [(u, c)] else [])"
  by (auto simp: submission_def submitEncryptedConnections_def library_defs submit_returns_def)

lemma submission_other:
  "(\<And>u c. call \<noteq> SubmitEncryptedConnections u c) \<Longrightarrow> submission kms s (e, call) B = []"
  by (cases call) (auto simp: submission_def)

lemma step_Request:
  "step kms s (e, RequestTotalConnectionsDecryption b) =
     (if isProvider s (msg_sender e) \<and> \<not> paused s \<and>
         lastDecryptionRequestTime s (msg_sender e) + cooldownSeconds s \<le> max_uint256 \<and>
         lastDecryptionRequestTime s (msg_sender e) + cooldownSeconds s \<le> block_timestamp e \<and>
         1 \<le> b \<and> b \<le> currentBatchId s \<and> encryptedTotalConnections s b \<noteq> Uninitialized
      then s\<lparr>lastDecryptionRequestTime :=
               (lastDecryptionRequestTime s)(msg_sender e := block_timestamp e),
             decryptionContexts :=
               (decryptionContexts s)(length (decryptionRequests s) :=
                 \<lparr> batchId = b,
                   stateHash = Keccak256 [encryptedTotalConnections s b] (this_address s),
                   processed = False \<rparr>),
             decryptionRequests := decryptionRequests s @ [[encryptedTotalConnections s b]]\<rparr>
      else s)"
  by (auto simp: step_def requestTotalConnectionsDecryption_def library_defs Let_def)

lemma step_MyCallback:
  "step kms s (e, MyCallback r c p) =
     (if \<not> processed (decryptionContexts s r) \<and>
         Keccak256 [encryptedTotalConnections s (batchId (decryptionContexts s r))] (this_address s) =
           stateHash (decryptionContexts s r) \<and>
         r < length (decryptionRequests s) \<and> kms (decryptionRequests s ! r) c p \<and>
         abi_decode_uint32 c \<noteq> None
      then s\<lparr>decryptionContexts :=
               (decryptionContexts s)(r := (decryptionContexts s r)\<lparr>processed := True\<rparr>)\<rparr>
      else s)"
  by (auto simp: step_def myCallback_def library_defs FHE_checkSignatures_def Let_def
      split: option.splits)

lemmas step_simps = step_AddProvider step_RemoveProvider step_SetCooldownSeconds step_Pause
  step_Unpause step_OpenBatch step_CloseBatch step_Submit step_Request step_MyCallback

lemma step_owner: "owner (step kms s tx) = owner s"
  by (cases tx; cases "snd tx") (simp_all add: step_simps)

lemma step_this_address: "this_address (step kms s tx) = this_address s"
  by (cases tx; cases "snd tx") (simp_all add: step_simps)

lemma step_currentBatchId: "currentBatchId s \<le> currentBatchId (step kms s tx)"
  by (cases tx; cases "snd tx") (simp_all add: step_simps)

lemma step_decryptionRequests:
  "length (decryptionRequests s) \<le> length (decryptionRequests (step kms s tx))"
  by (cases tx; cases "snd tx") (simp_all add: step_simps)

lemma step_context:
  "r < length (decryptionRequests s) \<Longrightarrow>
   batchId (decryptionContexts (step kms s tx) r) = batchId (decryptionContexts s r) \<and>
   stateHash (decryptionContexts (step kms s tx) r) = stateHash (decryptionContexts s r) \<and>
   (processed (decryptionContexts s r) \<longrightarrow> processed (decryptionContexts (step kms s tx) r))"
  by (cases tx; cases "snd tx") (simp_all add: step_simps)

lemma run_owner: "owner (run kms s txs) = owner s"
  by (induction txs arbitrary: s) (simp_all add: run_Nil run_Cons step_owner)

lemma run_this_address: "this_address (run kms s txs) = this_address s"
  by (induction txs arbitrary: s) (simp_all add: run_Nil run_Cons step_this_address)

lemma run_currentBatchId: "currentBatchId s \<le> currentBatchId (run kms s txs)"
proof (induction txs arbitrary: s)
  case Nil
  show ?case by (simp add: run_Nil)
next
  case (Cons tx txs)
  from step_currentBatchId [of s kms tx] Cons [of "step kms s tx"] show ?case
    by (simp add: run_Cons)
qed

lemma run_decryptionRequests:
  "length (decryptionRequests s) \<le> length (decryptionRequests (run kms s txs))"
proof (induction txs arbitrary: s)
  case Nil
  show ?case by (simp add: run_Nil)
next
  case (Cons tx txs)
  from step_decryptionRequests [of s kms tx] Cons [of "step kms s tx"] show ?case
    by (simp add: run_Cons)
qed

lemma run_context:
  "r < length (decryptionRequests s) \<Longrightarrow>
   batchId (decryptionContexts (run kms s txs) r) = batchId (decryptionContexts s r) \<and>
   stateHash (decryptionContexts (run kms s txs) r) = stateHash (decryptionContexts s r) \<and>
   (processed (decryptionContexts s r) \<longrightarrow> processed (decryptionContexts (run kms s txs) r))"
proof (induction txs arbitrary: s)
  case Nil
  show ?case by (simp add: run_Nil)
next
  case (Cons tx txs)
  from Cons.prems step_decryptionRequests [of s kms tx]
  have "r < length (decryptionRequests (step kms s tx))" by simp
  from Cons.IH [OF this] step_context [OF Cons.prems, of kms tx] show ?case
    by (simp add: run_Cons)
qed

text \<open>The aggregate and the contributions along an execution.\<close>

lemma homomorphic_sum_snoc: "homomorphic_sum (cs @ [c]) = FheAdd (homomorphic_sum cs) c"
  by (simp add: homomorphic_sum_def FHE_add_def)

lemma latest_Nil: "latest [] u = Uninitialized"
  by (simp add: latest_def)

lemma latest_snoc: "latest (subs @ [(v, c)]) u = (if u = v then c else latest subs u)"
  by (simp add: latest_def)

lemma cleartext_homomorphic_sum:
  "cleartext (homomorphic_sum cs) = sum_list (map cleartext cs)"
  by (induction cs rule: rev_induct)
     (simp_all add: homomorphic_sum_snoc, simp add: homomorphic_sum_def FHE_asEuint32_def)

lemma submitted_snoc:
  "submitted kms s (txs @ [tx]) B = submitted kms s txs B @ submission kms (run kms s txs) tx B"
  by (simp add: submitted_append)

lemma tallied_Nil: "tallied kms (constructor e this) []"
  by (simp add: tallied_def run_Nil constructor_def latest_Nil)

lemma tallied_snoc:
  assumes t: "tallied kms s0 txs" and wf: "well_formed (run kms s0 txs)"
  shows "tallied kms s0 (txs @ [tx])"
proof (cases tx)
  case (Pair e c)
  let ?s = "run kms s0 txs"
  show ?thesis
  proof (cases c)
    case OpenBatch
    with Pair t show ?thesis
      by (auto simp: tallied_def run_snoc submitted_snoc step_simps submission_other homomorphic_sum_def
          FHE_asEuint32_def le_Suc_eq)
  next
    case (SubmitEncryptedConnections u ct)
    from wf have "batchOpen ?s \<Longrightarrow> 1 \<le> currentBatchId ?s"
      by (simp add: well_formed_def)
    with SubmitEncryptedConnections Pair t show ?thesis
      by (auto simp: tallied_def run_snoc submitted_snoc step_simps submission_Submit homomorphic_sum_snoc
          latest_snoc submit_returns_def)
  qed (use Pair t in \<open>auto simp: tallied_def run_snoc submitted_snoc step_simps submission_other\<close>)
qed

lemma tallied_run: "tallied kms (constructor e this) txs"
proof (induction txs rule: rev_induct)
  case Nil
  show ?case by (rule tallied_Nil)
next
  case (snoc tx txs)
  have "well_formed (run kms (constructor e this) txs)"
    by (simp add: well_formed_run well_formed_constructor)
  with snoc show ?case by (rule tallied_snoc)
qed

text \<open>The decoder of the contract reads back what the encoder wrote.\<close>

lemma four_bytes:
  fixes n :: nat
  assumes "n < 4294967296"
  shows "256 * (256 * (256 * (n div 16777216 mod 256) + n div 65536 mod 256) + n div 256 mod 256)
        + n mod 256 = n"
proof -
  define q1 where "q1 = n div 256"
  define q2 where "q2 = q1 div 256"
  define q3 where "q3 = q2 div 256"
  have a: "n div 65536 = q2"
    unfolding q2_def q1_def by (simp add: div_mult2_eq [symmetric])
  have b: "n div 16777216 = q3"
    unfolding q3_def q2_def q1_def by (simp add: div_mult2_eq [symmetric])
  from assms have "q1 < 16777216" unfolding q1_def by simp
  then have "q2 < 65536" unfolding q2_def by simp
  then have c: "q3 < 256" unfolding q3_def by simp
  have "256 * (256 * (256 * (q3 mod 256) + q2 mod 256) + q1 mod 256) + n mod 256 =
        256 * (256 * (256 * q3 + q2 mod 256) + q1 mod 256) + n mod 256"
    using c by simp
  also have "\<dots> = 256 * (256 * q2 + q1 mod 256) + n mod 256"
    unfolding q3_def by simp
  also have "\<dots> = 256 * q1 + n mod 256"
    unfolding q2_def by simp
  also have "\<dots> = n"
    unfolding q1_def by simp
  finally show ?thesis by (simp only: a b q1_def [symmetric])
qed


lemma abi_decode_encode: "abi_decode_uint32 (abi_encode_uint32 v) = Some (unat v)"
proof -
  define n where "n = unat v"
  have bound: "n < 4294967296"
    using unsigned_less [of v] by (simp add: n_def)
  have byte: "\<And>k. unat (of_nat (k mod 256) :: 8 word) = k mod 256"
    by (simp add: unat_of_nat)
  have "be_uint (abi_encode_uint32 v) =
      256 * (256 * (256 * (n div 16777216 mod 256) + n div 65536 mod 256) + n div 256 mod 256)
        + n mod 256"
    unfolding be_uint_def abi_encode_uint32_def n_def [symmetric]
    by (simp only: foldl.simps byte unat_0 power_numeral numeral_times_numeral
        mult_0_right add_0 add.left_neutral mult_zero_right, simp)
  also from bound have "\<dots> = n"
    by (rule four_bytes)
  finally have decoded: "be_uint (abi_encode_uint32 v) = unat v"
    by (simp add: n_def)
  have "length (abi_encode_uint32 v) = 32"
    by (simp add: abi_encode_uint32_def)
  with decoded bound show ?thesis
    by (simp add: abi_decode_uint32_def n_def)
qed

lemma sound_honest_kms: "sound_verifier honest_kms"
  by (simp add: sound_verifier_def honest_kms_def)

lemma callback_reveals:
  assumes wf: "well_formed s" and sound: "sound_verifier kms"
    and cb: "myCallback kms s r c p = Inr (s', evs)"
  shows "evs = [DecryptionCompleted r (batchId (decryptionContexts s r))
                  (unat (cleartext (encryptedTotalConnections s (batchId (decryptionContexts s r)))))]"
proof -
  let ?h = "encryptedTotalConnections s (batchId (decryptionContexts s r))"
  from myCallback_Inr [OF cb]
  have hash: "Keccak256 [?h] (this_address s) = stateHash (decryptionContexts s r)"
    and r: "r < length (decryptionRequests s)"
    and ok: "kms (decryptionRequests s ! r) c p"
    and evs: "evs = [DecryptionCompleted r (batchId (decryptionContexts s r)) (the (abi_decode_uint32 c))]"
    by simp_all
  from wf r have "stateHash (decryptionContexts s r) = Keccak256 (decryptionRequests s ! r) (this_address s)"
    by (simp add: well_formed_def)
  with hash have "decryptionRequests s ! r = [?h]" by simp
  with ok sound have "c = abi_encode_uint32 (cleartext ?h)"
    unfolding sound_verifier_def by metis
  then have "abi_decode_uint32 c = Some (unat (cleartext ?h))"
    by (simp add: abi_decode_encode)
  with evs show ?thesis by simp
qed

text \<open>The aggregate of a batch only grows, and a pending context stays pending.\<close>

lemma step_aggregate_size:
  "B \<le> currentBatchId s \<Longrightarrow>
   size (encryptedTotalConnections s B) + length (submission kms s tx B)
     \<le> size (encryptedTotalConnections (step kms s tx) B)"
  by (cases tx; cases "snd tx") (simp_all add: step_simps submission_Submit submission_other)

lemma run_aggregate_size:
  "B \<le> currentBatchId s \<Longrightarrow>
   size (encryptedTotalConnections s B) + length (submitted kms s txs B)
     \<le> size (encryptedTotalConnections (run kms s txs) B)"
proof (induction txs arbitrary: s)
  case Nil
  show ?case by (simp add: run_Nil)
next
  case (Cons tx txs)
  from Cons.prems step_currentBatchId [of s kms tx]
  have "B \<le> currentBatchId (step kms s tx)" by simp
  from Cons.IH [OF this] step_aggregate_size [OF Cons.prems, of kms tx] show ?case
    by (simp add: run_Cons)
qed

lemma step_pending:
  assumes "r < length (decryptionRequests s)"
    and "\<not> processed (decryptionContexts s r)"
    and "\<And>c p. snd tx \<noteq> MyCallback r c p"
  shows "\<not> processed (decryptionContexts (step kms s tx) r)"
  using assms by (cases tx; cases "snd tx") (auto simp: step_simps)

lemma run_pending:
  assumes "r < length (decryptionRequests s)"
    and "\<not> processed (decryptionContexts s r)"
    and "\<forall>tx\<in>set txs. \<forall>c p. snd tx \<noteq> MyCallback r c p"
  shows "\<not> processed (decryptionContexts (run kms s txs) r)"
  using assms
proof (induction txs arbitrary: s)
  case Nil
  then show ?case by (simp add: run_Nil)
next
  case (Cons tx txs)
  from Cons.prems(1) step_decryptionRequests [of s kms tx]
  have r: "r < length (decryptionRequests (step kms s tx))" by simp
  from Cons.prems have "\<not> processed (decryptionContexts (step kms s tx) r)"
    by (intro step_pending) simp_all
  from Cons.IH [OF r this] Cons.prems(3) show ?case
    by (simp add: run_Cons)
qed

text \<open>Who stays a provider, and how far the batch counter can be.\<close>

lemma step_owner_provider:
  assumes "isProvider s (owner s)"
    and "\<not> (msg_sender (fst tx) = owner s \<and> snd tx = RemoveProvider (owner s))"
  shows "isProvider (step kms s tx) (owner s)"
  using assms by (cases tx; cases "snd tx") (auto simp: step_simps)

lemma run_owner_provider:
  assumes "isProvider s (owner s)"
    and "\<forall>tx\<in>set txs. \<not> (msg_sender (fst tx) = owner s \<and> snd tx = RemoveProvider (owner s))"
  shows "isProvider (run kms s txs) (owner s)"
  using assms
proof (induction txs arbitrary: s)
  case Nil
  then show ?case by (simp add: run_Nil)
next
  case (Cons tx txs)
  from Cons.prems have "isProvider (step kms s tx) (owner s)"
    by (intro step_owner_provider) simp_all
  with Cons.IH [of "step kms s tx"] Cons.prems(2) show ?case
    by (simp add: run_Cons step_owner)
qed



text \<open>The value of a sum of 32-bit words.\<close>

lemma unat_sum_list:
  "unat (sum_list (map f xs) :: 32 word) = sum_list (map (\<lambda>x. unat (f x)) xs) mod 2 ^ 32"
proof (induction xs)
  case Nil
  show ?case by simp
next
  case (Cons x xs)
  have "unat (f x + sum_list (map f xs)) = (unat (f x) + unat (sum_list (map f xs))) mod 2 ^ 32"
    by (simp add: unat_word_ariths)
  also have "\<dots> = (unat (f x) + sum_list (map (\<lambda>x. unat (f x)) xs)) mod 2 ^ 32"
    by (simp add: Cons.IH mod_add_right_eq)
  finally show ?case by simp
qed

subsection \<open>Evaluating the sample executions\<close>

lemmas sample_defs = run_def step_def deployed_def constructor_def owner_at_def
  batch_closed_def cooldown_raised_def decryption_requested_def completed_decryption_def pending_decryption_def late_submission_def
  kms_proof_def
  addProvider_def removeProvider_def setCooldownSeconds_def pause_def
  unpause_def openBatch_def closeBatch_def submitEncryptedConnections_def
  requestTotalConnectionsDecryption_def myCallback_def
  wrapping_total_def
  library_defs max_uint256_def FHE_checkSignatures_def honest_kms_def zero_context_def Let_def

lemma decode_payload [simp]: "abi_decode_uint32 (uint32_payload 10) = Some 10"
  by (simp add: abi_decode_uint32_def uint32_payload_def be_uint_def)

lemma decode_zero_payload [simp]: "abi_decode_uint32 (uint32_payload 0) = Some 0"
  by (simp add: abi_decode_uint32_def uint32_payload_def be_uint_def)

lemma encode_payload [simp]:
  "abi_encode_uint32 10 = uint32_payload 10" "abi_encode_uint32 0 = uint32_payload 0"
  by (simp_all add: abi_encode_uint32_def uint32_payload_def)

lemma wrapped_payload [simp]: "abi_encode_uint32 4294967296 = uint32_payload 0"
  by (simp add: abi_encode_uint32_def uint32_payload_def)

section \<open>The claims\<close>

text \<open>
  C1 (tamper detection). A request for the decryption of batch \<open>B\<close> returns and announces
  the identifier \<open>r\<close>. The execution goes on with any transactions, none of them a callback
  for \<open>r\<close>, among which at least one \<open>submitEncryptedConnections\<close> returns while \<open>B\<close> is the
  current batch. Then \<open>myCallback\<close> for \<open>r\<close> reverts with \<open>StateMismatch\<close>, whatever the
  payload, the proof and the verifier are, and the storage is as before.
\<close>

theorem C1_tamper_detection:
  assumes "requestTotalConnectionsDecryption e s B = Inr (s1, [DecryptionRequested r B])"
    and "\<forall>tx\<in>set txs. \<forall>c p. snd tx \<noteq> MyCallback r c p"
    and "submitted kms s1 txs B \<noteq> []"
  shows "myCallback kms' (run kms s1 txs) r cleartexts decryptionProof = Inl StateMismatch \<and>
         step kms' (run kms s1 txs) (e', MyCallback r cleartexts decryptionProof) = run kms s1 txs"
proof -
  let ?s2 = "run kms s1 txs"
  let ?snapshot = "encryptedTotalConnections s B"
  from assms(1) have r: "r = length (decryptionRequests s)"
    by (auto simp: requestTotalConnectionsDecryption_def library_defs Let_def split: if_splits)
  from requestTotalConnectionsDecryption_Inr [OF assms(1)]
  have B: "B \<le> currentBatchId s1"
    and ctx: "decryptionContexts s1 r =
      \<lparr> batchId = B, stateHash = Keccak256 [?snapshot] (this_address s), processed = False \<rparr>"
    and len: "r < length (decryptionRequests s1)"
    and total: "encryptedTotalConnections s1 B = ?snapshot"
    and this: "this_address s1 = this_address s"
    by (simp_all add: r)
  from run_context [OF len, of kms txs] ctx
  have batch: "batchId (decryptionContexts ?s2 r) = B"
    and hash: "stateHash (decryptionContexts ?s2 r) = Keccak256 [?snapshot] (this_address s)"
    by simp_all
  from run_pending [OF len _ assms(2)] ctx
  have pending: "\<not> processed (decryptionContexts ?s2 r)" by simp
  from run_aggregate_size [OF B, of kms txs] assms(3) total
  have "size ?snapshot < size (encryptedTotalConnections ?s2 B)"
    by (cases "submitted kms s1 txs B") simp_all
  then have changed: "encryptedTotalConnections ?s2 B \<noteq> ?snapshot" by auto
  from pending batch hash changed
  have "myCallback kms' ?s2 r cleartexts decryptionProof = Inl StateMismatch"
    by (simp add: myCallback_def library_defs Let_def)
  then show ?thesis by (simp add: step_def)
qed

theorem C1_tamper_detection_witness:
  "requestTotalConnectionsDecryption (owner_at 1200)
     (run honest_kms deployed [(owner_at 1000, OpenBatch),
        (owner_at 1100, SubmitEncryptedConnections 0x0C (Encrypted 10 1))]) 1 =
     Inr (run honest_kms deployed pending_decryption, [DecryptionRequested 0 1]) \<and>
   submitted honest_kms (run honest_kms deployed pending_decryption) late_submission 1 =
     [(0x0D, Encrypted 1 2)] \<and>
   myCallback honest_kms (run honest_kms (run honest_kms deployed pending_decryption) late_submission)
     0 (uint32_payload 10) kms_proof = Inl StateMismatch"
proof -
  let ?s = "run honest_kms deployed [(owner_at 1000, OpenBatch),
        (owner_at 1100, SubmitEncryptedConnections 0x0C (Encrypted 10 1))]"
  let ?s1 = "run honest_kms deployed pending_decryption"
  have req: "requestTotalConnectionsDecryption (owner_at 1200) ?s 1 =
      Inr (?s1, [DecryptionRequested 0 1])"
    by (simp add: sample_defs)
  have nocb: "\<forall>tx\<in>set late_submission. \<forall>c p. snd tx \<noteq> MyCallback 0 c p"
    by (simp add: late_submission_def)
  have subs: "submitted honest_kms ?s1 late_submission 1 = [(0x0D, Encrypted 1 2)]"
    by (simp add: submission_def sample_defs)
  then have "submitted honest_kms ?s1 late_submission 1 \<noteq> []" by simp
  from C1_tamper_detection [OF req nocb this, of honest_kms "uint32_payload 10" kms_proof "owner_at 1400"]
    req subs
  show ?thesis by simp
qed

text \<open>
  C2 (replay immunity). When the context of a request identifier has \<open>processed\<close> set,
  \<open>myCallback\<close> with that identifier reverts with \<open>ReplayAttempt\<close>, whatever the cleartext
  payload, the proof, the stored hash and the verifier are: the test of \<open>processed\<close> is the
  first statement of the function, before the hash is recomputed, the signatures are
  checked and the payload is decoded. The call reverts, so the storage, \<open>processed\<close>
  included, is as before and no \<open>DecryptionCompleted\<close> is emitted.
\<close>

theorem C2_replay:
  "processed (decryptionContexts s requestId) \<Longrightarrow>
   myCallback kms s requestId cleartexts decryptionProof = Inl ReplayAttempt \<and>
   step kms s (e, MyCallback requestId cleartexts decryptionProof) = s"
  by (simp add: myCallback_def step_def)

theorem C2_replay_witness:
  "processed (decryptionContexts (run honest_kms deployed completed_decryption) 0) \<and>
   myCallback honest_kms (run honest_kms deployed completed_decryption) 0
     (uint32_payload 10) kms_proof = Inl ReplayAttempt"
proof -
  have seen: "processed (decryptionContexts (run honest_kms deployed completed_decryption) 0)"
    by (simp add: sample_defs)
  from C2_replay [OF seen, of honest_kms "uint32_payload 10" kms_proof "owner_at 1700"]
  show ?thesis using seen by simp
qed

text \<open>
  C3 (aggregate correctness), as amended. In every state an execution reaches from the
  constructor, and for every batch \<open>B\<close> opened so far, the aggregate of \<open>B\<close> is the
  homomorphic sum, from an encrypted zero, of the ciphertexts of all the calls of
  \<open>submitEncryptedConnections\<close> that returned while \<open>B\<close> was the current batch, in their order
  and with repetitions. The value it encrypts is the sum of the values they encrypt modulo
  \<open>2 ^ 32\<close>: the addition of \<open>euint32\<close> wraps. The contribution stored for a user in \<open>B\<close> is
  the ciphertext of that user's most recent submission only. When the callback of a
  request for \<open>B\<close> completes in that state, under a verifier that accepts only the encoding
  of the correct decryption, the total it emits is that sum modulo \<open>2 ^ 32\<close>: the callback
  completes only if the aggregate is the one the request exported, so the sum ranges over
  the submissions made before the request.
\<close>

theorem C3_aggregate:
  assumes "s = run kms (constructor e0 this) txs" and "1 \<le> B" and "B \<le> currentBatchId s"
  shows "encryptedTotalConnections s B =
           homomorphic_sum (map snd (submitted kms (constructor e0 this) txs B)) \<and>
         unat (cleartext (encryptedTotalConnections s B)) =
           sum_list (map (unat \<circ> cleartext \<circ> snd) (submitted kms (constructor e0 this) txs B))
             mod 2 ^ 32 \<and>
         encryptedUserConnections s B u = latest (submitted kms (constructor e0 this) txs B) u \<and>
         (sound_verifier kms \<and> batchId (decryptionContexts s r) = B \<and>
          myCallback kms s r c p = Inr (s', evs) \<longrightarrow>
          evs = [DecryptionCompleted r B
                   (sum_list (map (unat \<circ> cleartext \<circ> snd)
                      (submitted kms (constructor e0 this) txs B)) mod 2 ^ 32)])"
proof -
  let ?subs = "submitted kms (constructor e0 this) txs B"
  have t: "tallied kms (constructor e0 this) txs" by (rule tallied_run)
  have wf: "well_formed s" using assms(1) by (simp add: well_formed_run well_formed_constructor)
  from t assms have total: "encryptedTotalConnections s B = homomorphic_sum (map snd ?subs)"
    by (simp add: tallied_def)
  have "unat (cleartext (homomorphic_sum (map snd ?subs))) =
      unat (sum_list (map (cleartext \<circ> snd) ?subs))"
    by (simp add: cleartext_homomorphic_sum comp_def)
  also have "\<dots> = sum_list (map (\<lambda>x. unat ((cleartext \<circ> snd) x)) ?subs) mod 2 ^ 32"
    by (rule unat_sum_list)
  finally have clear: "unat (cleartext (encryptedTotalConnections s B)) =
      sum_list (map (unat \<circ> cleartext \<circ> snd) ?subs) mod 2 ^ 32"
    by (simp add: total comp_def)
  from t assms(1) have user: "encryptedUserConnections s B u = latest ?subs u"
    by (simp add: tallied_def)
  have "evs = [DecryptionCompleted r B
                 (sum_list (map (unat \<circ> cleartext \<circ> snd) ?subs) mod 2 ^ 32)]"
    if "sound_verifier kms" and "batchId (decryptionContexts s r) = B"
      and "myCallback kms s r c p = Inr (s', evs)"
    using callback_reveals [OF wf that(1) that(3)] that(2) clear by simp
  with total clear user show ?thesis by blast
qed

theorem C3_aggregate_witness:
  "encryptedTotalConnections (run honest_kms deployed decryption_requested) 1 =
     FheAdd (FheAdd (FheAdd (TrivialEncrypt 0) (Encrypted 5 1)) (Encrypted 3 2)) (Encrypted 2 3) \<and>
   unat (cleartext (encryptedTotalConnections (run honest_kms deployed decryption_requested) 1)) = 10 \<and>
   encryptedUserConnections (run honest_kms deployed decryption_requested) 1 0x0A = Encrypted 2 3 \<and>
   map_sum id snd (myCallback honest_kms (run honest_kms deployed decryption_requested) 0
     (uint32_payload 10) kms_proof) = Inr [DecryptionCompleted 0 1 10]"
proof -
  let ?s = "run honest_kms deployed decryption_requested"
  have subs: "submitted honest_kms (constructor (owner_at 1000) 0xC0) decryption_requested 1 =
      [(0x0A, Encrypted 5 1), (0x0B, Encrypted 3 2), (0x0A, Encrypted 2 3)]"
    by (simp add: submission_def sample_defs)
  then have subs': "submitted honest_kms (constructor (owner_at 1000) 0xC0) decryption_requested (Suc 0) =
      [(0x0A, Encrypted 5 1), (0x0B, Encrypted 3 2), (0x0A, Encrypted 2 3)]"
    by simp
  have batch: "currentBatchId ?s = 1"
    by (simp add: sample_defs)
  have ctx: "batchId (decryptionContexts ?s 0) = 1"
    by (simp add: sample_defs)
  obtain s' evs where cb: "myCallback honest_kms ?s 0 (uint32_payload 10) kms_proof = Inr (s', evs)"
    by (simp add: sample_defs)
  from C3_aggregate [of ?s honest_kms "owner_at 1000" "0xC0" decryption_requested 1 "0x0A" 0
      "uint32_payload 10" kms_proof s' evs] batch ctx cb sound_honest_kms
  show ?thesis
    by (simp add: deployed_def subs' homomorphic_sum_def FHE_add_def FHE_asEuint32_def latest_def)
qed

text \<open>
  C3 as stated fails where the sum leaves 32 bits: after submissions of \<open>4294967295\<close> and
  \<open>1\<close> to batch 1, whose sum is \<open>4294967296\<close>, the callback that completes the decryption
  of the batch emits the total \<open>0\<close>.
\<close>

theorem C3_wrapping_counterexample:
  "map snd (submitted honest_kms deployed wrapping_total 1) =
     [Encrypted 4294967295 1, Encrypted 1 2] \<and>
   sum_list (map (unat \<circ> cleartext \<circ> snd) (submitted honest_kms deployed wrapping_total 1)) =
     4294967296 \<and>
   map_sum id snd (myCallback honest_kms (run honest_kms deployed wrapping_total) 0
     (uint32_payload 0) kms_proof) = Inr [DecryptionCompleted 0 1 0]"
  by (simp add: submission_def sample_defs)




text \<open>
  C5 (the owner and the provider set), as amended. In every state that an execution
  reaches from the constructor the owner is the deployer. The owner is a provider as long
  as the execution holds no call of \<open>removeProvider\<close> by the owner with the owner as
  argument: no other call takes the owner out of the provider set.
\<close>

theorem C5_owner_provider:
  "owner (run kms (constructor e0 this) txs) = msg_sender e0 \<and>
   ((\<forall>tx\<in>set txs. \<not> (msg_sender (fst tx) = msg_sender e0 \<and>
                       snd tx = RemoveProvider (msg_sender e0))) \<longrightarrow>
    isProvider (run kms (constructor e0 this) txs) (msg_sender e0))"
proof -
  have o: "owner (constructor e0 this) = msg_sender e0"
    and p: "isProvider (constructor e0 this) (owner (constructor e0 this))"
    by (simp_all add: constructor_def)
  from run_owner_provider [OF p, of txs kms] o show ?thesis
    by (simp add: run_owner)
qed

theorem C5_owner_provider_witness:
  "owner (run honest_kms deployed
     [(\<lparr> msg_sender = 0xEE, block_timestamp = 1100 \<rparr>, RemoveProvider 0xA1),
      (owner_at 1200, AddProvider 0xB0),
      (owner_at 1300, RemoveProvider 0xB0)]) = 0xA1 \<and>
   isProvider (run honest_kms deployed
     [(\<lparr> msg_sender = 0xEE, block_timestamp = 1100 \<rparr>, RemoveProvider 0xA1),
      (owner_at 1200, AddProvider 0xB0),
      (owner_at 1300, RemoveProvider 0xB0)]) 0xA1"
  using C5_owner_provider [of honest_kms "owner_at 1000" "0xC0"
     "[(\<lparr> msg_sender = 0xEE, block_timestamp = 1100 \<rparr>, RemoveProvider 0xA1),
      (owner_at 1200, AddProvider 0xB0),
      (owner_at 1300, RemoveProvider 0xB0)]"]
  by (simp add: deployed_def owner_at_def)

text \<open>
  C5 as stated fails: the deployer calls \<open>removeProvider\<close> with its own address, the call
  returns, and the owner is no longer a provider.
\<close>

theorem C5_owner_removed_counterexample:
  "owner (run honest_kms deployed [(owner_at 1100, RemoveProvider 0xA1)]) = 0xA1 \<and>
   \<not> isProvider (run honest_kms deployed [(owner_at 1100, RemoveProvider 0xA1)]) 0xA1"
  by (simp add: sample_defs)




text \<open>
  C7 (contexts are append-only). Take a state that an execution reaches from the
  constructor and an identifier \<open>r\<close> that the oracle has issued in it, that is, one under
  which a request stored a context. After any further transactions the context of \<open>r\<close> is
  still there (it is not the zero value of an unwritten slot), its \<open>batchId\<close> and its
  \<open>stateHash\<close> are what they were, and if \<open>processed\<close> was set it is still set: the only
  change is from false to true. \<open>requestTotalConnectionsDecryption\<close> writes the slot of the
  identifier it is given without testing it, so a later request leaves the context of \<open>r\<close>
  alone because the oracle gives each request an identifier of its own.
\<close>

theorem C7_context_append_only:
  assumes "s = run kms (constructor e0 this) txs0" and "r < length (decryptionRequests s)"
  shows "decryptionContexts (run kms s txs) r \<noteq> zero_context \<and>
         batchId (decryptionContexts (run kms s txs) r) = batchId (decryptionContexts s r) \<and>
         stateHash (decryptionContexts (run kms s txs) r) = stateHash (decryptionContexts s r) \<and>
         (processed (decryptionContexts s r) \<longrightarrow> processed (decryptionContexts (run kms s txs) r))"
proof -
  have "well_formed s" using assms(1) by (simp add: well_formed_run well_formed_constructor)
  with assms(2) have "1 \<le> batchId (decryptionContexts s r)"
    by (simp add: well_formed_def)
  with run_context [OF assms(2), of kms txs] show ?thesis
    by (auto simp: zero_context_def)
qed

theorem C7_context_append_only_witness:
  "batchId (decryptionContexts (run honest_kms (run honest_kms deployed completed_decryption)
      [(owner_at 1700, RequestTotalConnectionsDecryption 1)]) 0) = 1 \<and>
   processed (decryptionContexts (run honest_kms (run honest_kms deployed completed_decryption)
      [(owner_at 1700, RequestTotalConnectionsDecryption 1)]) 0) \<and>
   batchId (decryptionContexts (run honest_kms (run honest_kms deployed completed_decryption)
      [(owner_at 1700, RequestTotalConnectionsDecryption 1)]) 1) = 1 \<and>
   \<not> processed (decryptionContexts (run honest_kms (run honest_kms deployed completed_decryption)
      [(owner_at 1700, RequestTotalConnectionsDecryption 1)]) 1)"
proof -
  let ?s = "run honest_kms deployed completed_decryption"
  have issued: "0 < length (decryptionRequests ?s)"
    by (simp add: sample_defs)
  have before: "batchId (decryptionContexts ?s 0) = 1 \<and> processed (decryptionContexts ?s 0)"
    by (simp add: sample_defs)
  have second: "decryptionContexts (run honest_kms ?s [(owner_at 1700, RequestTotalConnectionsDecryption 1)]) 1 =
      \<lparr> batchId = 1, stateHash = Keccak256 [FheAdd (FheAdd (FheAdd (TrivialEncrypt 0) (Encrypted 5 1)) (Encrypted 3 2)) (Encrypted 2 3)] 0xC0, processed = False \<rparr>"
    by (simp add: sample_defs)
  from C7_context_append_only [of ?s honest_kms "owner_at 1000" "0xC0" completed_decryption 0
      "[(owner_at 1700, RequestTotalConnectionsDecryption 1)]"] issued before second
  show ?thesis by (simp add: deployed_def)
qed

text \<open>
  C8 (requesting a decryption), as amended. \<open>requestTotalConnectionsDecryption\<close> tests, in
  this order: the caller is a provider (else \<open>NotProvider\<close>); the contract is not paused
  (else \<open>Paused\<close>); the caller's last request time plus \<open>cooldownSeconds\<close> fits in 256 bits
  (else the arithmetic panic) and is not after the block time (else \<open>CooldownActive\<close>); the
  batch is not 0 and not beyond \<open>currentBatchId\<close> (else \<open>InvalidArgument\<close>); the aggregate of
  the batch is an initialized handle (else \<open>NotInitialized\<close>). Then it returns: under the
  identifier the oracle returns it stores a context with that batch, the hash of the
  exported aggregate as it is now, and \<open>processed\<close> false; it sets the caller's
  \<open>lastDecryptionRequestTime\<close> to the block time; the oracle holds the new request.
\<close>

theorem C8_request_decryption:
  "requestTotalConnectionsDecryption e s b =
     (if \<not> isProvider s (msg_sender e) then Inl NotProvider
      else if paused s then Inl Paused
      else if max_uint256 < lastDecryptionRequestTime s (msg_sender e) + cooldownSeconds s
        then Inl (Panic 0x11)
      else if block_timestamp e < lastDecryptionRequestTime s (msg_sender e) + cooldownSeconds s
        then Inl CooldownActive
      else if b = 0 \<or> currentBatchId s < b then Inl InvalidArgument
      else if \<not> FHE_isInitialized (encryptedTotalConnections s b) then Inl NotInitialized
      else Inr (s\<lparr>lastDecryptionRequestTime :=
                    (lastDecryptionRequestTime s)(msg_sender e := block_timestamp e),
                  decryptionContexts :=
                    (decryptionContexts s)
                      (fst (FHE_requestDecryption (decryptionRequests s)
                              [FHE_toBytes32 (encryptedTotalConnections s b)]) :=
                         \<lparr> batchId = b,
                           stateHash = hashCiphertexts s
                             [FHE_toBytes32 (encryptedTotalConnections s b)],
                           processed = False \<rparr>),
                  decryptionRequests :=
                    snd (FHE_requestDecryption (decryptionRequests s)
                           [FHE_toBytes32 (encryptedTotalConnections s b)])\<rparr>,
                [DecryptionRequested
                   (fst (FHE_requestDecryption (decryptionRequests s)
                           [FHE_toBytes32 (encryptedTotalConnections s b)])) b]))"
  by (simp add: requestTotalConnectionsDecryption_def checked_add_def Let_def
      FHE_requestDecryption_def not_less not_le)

theorem C8_request_decryption_witness:
  "requestTotalConnectionsDecryption (owner_at 1500) (run honest_kms deployed batch_closed) 0 =
     Inl InvalidArgument \<and>
   requestTotalConnectionsDecryption (owner_at 1500) (run honest_kms deployed batch_closed) 2 =
     Inl InvalidArgument \<and>
   map_sum id snd
     (requestTotalConnectionsDecryption (owner_at 1500) (run honest_kms deployed batch_closed) 1) =
     Inr [DecryptionRequested 0 1] \<and>
   decryptionContexts (step honest_kms (run honest_kms deployed batch_closed)
       (owner_at 1500, RequestTotalConnectionsDecryption 1)) 0 =
     \<lparr> batchId = 1,
       stateHash = Keccak256
         [FheAdd (FheAdd (FheAdd (TrivialEncrypt 0) (Encrypted 5 1)) (Encrypted 3 2)) (Encrypted 2 3)]
         0xC0,
       processed = False \<rparr> \<and>
   lastDecryptionRequestTime (step honest_kms (run honest_kms deployed batch_closed)
       (owner_at 1500, RequestTotalConnectionsDecryption 1)) 0xA1 = 1500"
proof -
  let ?s = "run honest_kms deployed batch_closed"
  have g: "isProvider ?s (msg_sender (owner_at 1500))" "\<not> paused ?s"
    "lastDecryptionRequestTime ?s (msg_sender (owner_at 1500)) = 0" "cooldownSeconds ?s = 60"
    "block_timestamp (owner_at 1500) = 1500"
    by (simp_all add: sample_defs)
  have v: "currentBatchId ?s = 1"
    "encryptedTotalConnections ?s 1 =
       FheAdd (FheAdd (FheAdd (TrivialEncrypt 0) (Encrypted 5 1)) (Encrypted 3 2)) (Encrypted 2 3)"
    "decryptionRequests ?s = []" "this_address ?s = 0xC0"
    by (simp_all add: sample_defs)
  from C8_request_decryption [of "owner_at 1500" ?s 0] C8_request_decryption [of "owner_at 1500" ?s 2]
    C8_request_decryption [of "owner_at 1500" ?s 1] g v
  show ?thesis
    by (simp add: step_def library_defs owner_at_def max_uint256_def)
qed

text \<open>
  C8 as stated fails for the calls that an earlier guard stops: a request for batch 0
  reverts with \<open>CooldownActive\<close> when the owner makes it 59 seconds after its last request,
  with \<open>NotProvider\<close> when a stranger makes it, and with \<open>Paused\<close> on a paused contract,
  not with \<open>InvalidArgument\<close>.
\<close>

theorem C8_guards_counterexample:
  "requestTotalConnectionsDecryption (owner_at 1559)
     (run honest_kms deployed decryption_requested) 0 = Inl CooldownActive \<and>
   requestTotalConnectionsDecryption \<lparr> msg_sender = 0xEE, block_timestamp = 1600 \<rparr>
     (run honest_kms deployed decryption_requested) 0 = Inl NotProvider \<and>
   requestTotalConnectionsDecryption (owner_at 1600)
     (run honest_kms deployed (decryption_requested @ [(owner_at 1550, Pause)])) 0 = Inl Paused"
  by (simp add: sample_defs)

text \<open>
  C9 (cooldown), as amended. Each of the two calls first reverts with \<open>NotProvider\<close> when
  the caller is not a provider and then with \<open>Paused\<close> when the contract is paused. For a
  provider on a contract that is not paused, and for each of the two timers on its own:
  when the sum of the caller's last action time and \<open>cooldownSeconds\<close> fits in 256 bits,
  a call before that time reverts with \<open>CooldownActive\<close> and leaves the storage unchanged,
  and a call at or after that time passes the check (it reverts with none of
  \<open>NotProvider\<close>, \<open>Paused\<close>, \<open>CooldownActive\<close> and the arithmetic panic); when the sum does
  not fit, the call reverts with the arithmetic panic and leaves the storage unchanged. A
  call that returns sets the caller's timer of its own kind to the block time and leaves
  the timer of the other kind as it was.
\<close>

theorem C9_cooldown:
  "(\<not> isProvider s (msg_sender e) \<longrightarrow>
      submitEncryptedConnections e s u c = Inl NotProvider \<and>
      requestTotalConnectionsDecryption e s b = Inl NotProvider) \<and>
   (isProvider s (msg_sender e) \<and> paused s \<longrightarrow>
      submitEncryptedConnections e s u c = Inl Paused \<and>
      requestTotalConnectionsDecryption e s b = Inl Paused) \<and>
   (isProvider s (msg_sender e) \<and> \<not> paused s \<longrightarrow>
      (if lastSubmissionTime s (msg_sender e) + cooldownSeconds s \<le> max_uint256
       then (block_timestamp e < lastSubmissionTime s (msg_sender e) + cooldownSeconds s \<longrightarrow>
               submitEncryptedConnections e s u c = Inl CooldownActive \<and>
               step kms s (e, SubmitEncryptedConnections u c) = s) \<and>
            (lastSubmissionTime s (msg_sender e) + cooldownSeconds s \<le> block_timestamp e \<longrightarrow>
               submitEncryptedConnections e s u c \<notin>
                 {Inl NotProvider, Inl Paused, Inl CooldownActive, Inl (Panic 0x11)})
       else submitEncryptedConnections e s u c = Inl (Panic 0x11) \<and>
            step kms s (e, SubmitEncryptedConnections u c) = s) \<and>
      (if lastDecryptionRequestTime s (msg_sender e) + cooldownSeconds s \<le> max_uint256
       then (block_timestamp e < lastDecryptionRequestTime s (msg_sender e) + cooldownSeconds s \<longrightarrow>
               requestTotalConnectionsDecryption e s b = Inl CooldownActive \<and>
               step kms s (e, RequestTotalConnectionsDecryption b) = s) \<and>
            (lastDecryptionRequestTime s (msg_sender e) + cooldownSeconds s \<le> block_timestamp e \<longrightarrow>
               requestTotalConnectionsDecryption e s b \<notin>
                 {Inl NotProvider, Inl Paused, Inl CooldownActive, Inl (Panic 0x11)})
       else requestTotalConnectionsDecryption e s b = Inl (Panic 0x11) \<and>
            step kms s (e, RequestTotalConnectionsDecryption b) = s)) \<and>
   (submitEncryptedConnections e s u c = Inr (s', evs) \<longrightarrow>
      lastSubmissionTime s' = (lastSubmissionTime s)(msg_sender e := block_timestamp e) \<and>
      lastDecryptionRequestTime s' = lastDecryptionRequestTime s) \<and>
   (requestTotalConnectionsDecryption e s b = Inr (s'', evs') \<longrightarrow>
      lastDecryptionRequestTime s'' =
        (lastDecryptionRequestTime s)(msg_sender e := block_timestamp e) \<and>
      lastSubmissionTime s'' = lastSubmissionTime s)"
proof -
  have stranger: "submitEncryptedConnections e s u c = Inl NotProvider \<and>
      requestTotalConnectionsDecryption e s b = Inl NotProvider"
    if "\<not> isProvider s (msg_sender e)"
    using that by (simp add: submitEncryptedConnections_def requestTotalConnectionsDecryption_def)
  have halted: "submitEncryptedConnections e s u c = Inl Paused \<and>
      requestTotalConnectionsDecryption e s b = Inl Paused"
    if "isProvider s (msg_sender e) \<and> paused s"
    using that by (simp add: submitEncryptedConnections_def requestTotalConnectionsDecryption_def)
  have submit: "if lastSubmissionTime s (msg_sender e) + cooldownSeconds s \<le> max_uint256
       then (block_timestamp e < lastSubmissionTime s (msg_sender e) + cooldownSeconds s \<longrightarrow>
               submitEncryptedConnections e s u c = Inl CooldownActive \<and>
               step kms s (e, SubmitEncryptedConnections u c) = s) \<and>
            (lastSubmissionTime s (msg_sender e) + cooldownSeconds s \<le> block_timestamp e \<longrightarrow>
               submitEncryptedConnections e s u c \<notin>
                 {Inl NotProvider, Inl Paused, Inl CooldownActive, Inl (Panic 0x11)})
       else submitEncryptedConnections e s u c = Inl (Panic 0x11) \<and>
            step kms s (e, SubmitEncryptedConnections u c) = s"
    if "isProvider s (msg_sender e) \<and> \<not> paused s"
    using that by (simp add: submitEncryptedConnections_def checked_add_def step_def)
  have request: "if lastDecryptionRequestTime s (msg_sender e) + cooldownSeconds s \<le> max_uint256
       then (block_timestamp e < lastDecryptionRequestTime s (msg_sender e) + cooldownSeconds s \<longrightarrow>
               requestTotalConnectionsDecryption e s b = Inl CooldownActive \<and>
               step kms s (e, RequestTotalConnectionsDecryption b) = s) \<and>
            (lastDecryptionRequestTime s (msg_sender e) + cooldownSeconds s \<le> block_timestamp e \<longrightarrow>
               requestTotalConnectionsDecryption e s b \<notin>
                 {Inl NotProvider, Inl Paused, Inl CooldownActive, Inl (Panic 0x11)})
       else requestTotalConnectionsDecryption e s b = Inl (Panic 0x11) \<and>
            step kms s (e, RequestTotalConnectionsDecryption b) = s"
    if "isProvider s (msg_sender e) \<and> \<not> paused s"
    using that
    by (simp add: requestTotalConnectionsDecryption_def checked_add_def step_def Let_def split_beta)
  have submit_reset: "lastSubmissionTime s' = (lastSubmissionTime s)(msg_sender e := block_timestamp e) \<and>
      lastDecryptionRequestTime s' = lastDecryptionRequestTime s"
    if "submitEncryptedConnections e s u c = Inr (s', evs)"
    using submitEncryptedConnections_Inr [OF that] by simp
  have request_reset: "lastDecryptionRequestTime s'' =
        (lastDecryptionRequestTime s)(msg_sender e := block_timestamp e) \<and>
      lastSubmissionTime s'' = lastSubmissionTime s"
    if "requestTotalConnectionsDecryption e s b = Inr (s'', evs')"
    using requestTotalConnectionsDecryption_Inr [OF that] by simp
  from stranger halted submit request submit_reset request_reset
  show ?thesis by blast
qed

theorem C9_cooldown_witness:
  "submitEncryptedConnections (owner_at 1150)
     (run honest_kms deployed [(owner_at 1000, OpenBatch),
        (owner_at 1100, SubmitEncryptedConnections 0x0A (Encrypted 5 1))])
     0x0B (Encrypted 3 2) = Inl CooldownActive \<and>
   map_sum id snd (submitEncryptedConnections (owner_at 1160)
     (run honest_kms deployed [(owner_at 1000, OpenBatch),
        (owner_at 1100, SubmitEncryptedConnections 0x0A (Encrypted 5 1))])
     0x0B (Encrypted 3 2)) = Inr [ConnectionSubmitted 0x0B 1 (Encrypted 3 2)] \<and>
   lastSubmissionTime (step honest_kms
     (run honest_kms deployed [(owner_at 1000, OpenBatch),
        (owner_at 1100, SubmitEncryptedConnections 0x0A (Encrypted 5 1))])
     (owner_at 1160, SubmitEncryptedConnections 0x0B (Encrypted 3 2))) 0xA1 = 1160 \<and>
   map_sum id snd (requestTotalConnectionsDecryption (owner_at 1150)
     (run honest_kms deployed [(owner_at 1000, OpenBatch),
        (owner_at 1100, SubmitEncryptedConnections 0x0A (Encrypted 5 1))]) 1) =
     Inr [DecryptionRequested 0 1] \<and>
   submitEncryptedConnections \<lparr> msg_sender = 0xEE, block_timestamp = 1150 \<rparr>
     (run honest_kms deployed [(owner_at 1000, OpenBatch),
        (owner_at 1100, SubmitEncryptedConnections 0x0A (Encrypted 5 1))])
     0x0B (Encrypted 3 2) = Inl NotProvider"
proof -
  let ?s = "run honest_kms deployed [(owner_at 1000, OpenBatch),
        (owner_at 1100, SubmitEncryptedConnections 0x0A (Encrypted 5 1))]"
  have g: "isProvider ?s 0xA1" "\<not> paused ?s" "\<not> isProvider ?s 0xEE"
    by (simp_all add: sample_defs)
  have t: "lastSubmissionTime ?s 0xA1 = 1100" "cooldownSeconds ?s = 60"
    "lastDecryptionRequestTime ?s 0xA1 = 0"
    by (simp_all add: sample_defs)
  obtain s' evs where late: "submitEncryptedConnections (owner_at 1160) ?s 0x0B (Encrypted 3 2) =
      Inr (s', evs)" and evs: "evs = [ConnectionSubmitted 0x0B 1 (Encrypted 3 2)]"
    by (simp add: sample_defs)
  obtain s'' evs' where req: "requestTotalConnectionsDecryption (owner_at 1150) ?s 1 =
      Inr (s'', evs')" and evs': "evs' = [DecryptionRequested 0 1]"
    by (simp add: sample_defs)
  from C9_cooldown [of ?s "owner_at 1150" "0x0B" "Encrypted 3 2" 1 honest_kms s' evs s'' evs']
    C9_cooldown [of ?s "owner_at 1160" "0x0B" "Encrypted 3 2" 1 honest_kms s' evs s'' evs']
    C9_cooldown [of ?s "\<lparr> msg_sender = 0xEE, block_timestamp = 1150 \<rparr>" "0x0B" "Encrypted 3 2" 1
      honest_kms s' evs s'' evs']
    g t late evs req evs'
  show ?thesis
    by (simp add: step_def owner_at_def max_uint256_def)
qed

text \<open>
  C9 as stated fails where the sum overflows and where an earlier guard stops the call.
  After a submission at time 1100 the owner sets \<open>cooldownSeconds\<close> to the last \<open>uint256\<close>;
  a submission at time 1300 is before the last submission time plus the cooldown, and it
  reverts with the arithmetic panic of the checked addition, not with \<open>CooldownActive\<close>.
  On a paused contract, a submission by the owner 50 seconds after its last one reverts
  with \<open>Paused\<close>, and a submission by a stranger reverts with \<open>NotProvider\<close>.
\<close>

theorem C9_cooldown_overflow_counterexample:
  "isProvider (run honest_kms deployed cooldown_raised) 0xA1 \<and>
   \<not> paused (run honest_kms deployed cooldown_raised) \<and>
   1300 < lastSubmissionTime (run honest_kms deployed cooldown_raised) 0xA1 +
            cooldownSeconds (run honest_kms deployed cooldown_raised) \<and>
   submitEncryptedConnections (owner_at 1300) (run honest_kms deployed cooldown_raised)
     0x0B (Encrypted 3 2) = Inl (Panic 0x11) \<and>
   1150 < lastSubmissionTime (run honest_kms deployed
       [(owner_at 1000, OpenBatch),
        (owner_at 1100, SubmitEncryptedConnections 0x0A (Encrypted 5 1)),
        (owner_at 1120, Pause)]) 0xA1 +
     cooldownSeconds (run honest_kms deployed
       [(owner_at 1000, OpenBatch),
        (owner_at 1100, SubmitEncryptedConnections 0x0A (Encrypted 5 1)),
        (owner_at 1120, Pause)]) \<and>
   submitEncryptedConnections (owner_at 1150)
     (run honest_kms deployed
       [(owner_at 1000, OpenBatch),
        (owner_at 1100, SubmitEncryptedConnections 0x0A (Encrypted 5 1)),
        (owner_at 1120, Pause)])
     0x0B (Encrypted 3 2) = Inl Paused \<and>
   submitEncryptedConnections \<lparr> msg_sender = 0xEE, block_timestamp = 1150 \<rparr>
     (run honest_kms deployed
       [(owner_at 1000, OpenBatch),
        (owner_at 1100, SubmitEncryptedConnections 0x0A (Encrypted 5 1))])
     0x0B (Encrypted 3 2) = Inl NotProvider"
  by (simp add: sample_defs)

text \<open>
  C10 (a callback for an identifier never issued). In a state that an execution reaches
  from the constructor, an identifier \<open>r\<close> that the oracle has not issued has the zero
  context: batch 0, the zero hash, not processed. The aggregate of batch 0 is never
  written, and the digest of its export is not the zero word, so \<open>myCallback\<close> for \<open>r\<close>
  reverts with \<open>StateMismatch\<close>: it changes nothing and emits nothing.
\<close>

theorem C10_unknown_request:
  assumes "s = run kms (constructor e0 this) txs" and "length (decryptionRequests s) \<le> r"
  shows "decryptionContexts s r = zero_context \<and>
         myCallback kms' s r cleartexts decryptionProof = Inl StateMismatch \<and>
         step kms' s (e, MyCallback r cleartexts decryptionProof) = s"
proof -
  have "well_formed s" using assms(1) by (simp add: well_formed_run well_formed_constructor)
  with assms(2) have ctx: "decryptionContexts s r = zero_context"
    by (simp add: well_formed_def)
  then have "myCallback kms' s r cleartexts decryptionProof = Inl StateMismatch"
    by (simp add: myCallback_def library_defs Let_def zero_context_def)
  with ctx show ?thesis by (simp add: step_def)
qed

theorem C10_unknown_request_witness:
  "length (decryptionRequests (run honest_kms deployed completed_decryption)) = 1 \<and>
   decryptionContexts (run honest_kms deployed completed_decryption) 7 = zero_context \<and>
   myCallback honest_kms (run honest_kms deployed completed_decryption) 7
     (uint32_payload 10) kms_proof = Inl StateMismatch"
proof -
  let ?s = "run honest_kms deployed completed_decryption"
  have issued: "length (decryptionRequests ?s) = 1"
    by (simp add: sample_defs)
  then have "length (decryptionRequests ?s) \<le> 7" by simp
  from C10_unknown_request [OF _ this, of honest_kms "owner_at 1000" "0xC0" completed_decryption
      honest_kms "uint32_payload 10" kms_proof "owner_at 1700"] issued
  show ?thesis by (simp add: deployed_def)
qed

end
